theory Spec2Isabelle
  imports Main "HOL-Library.Word"
begin

section \<open>JavaScript strings\<close>

text \<open>
  A JavaScript string is a sequence of UTF-16 code units. \<open>js\<close> turns an ASCII
  literal of the theory into such a string.
\<close>

type_synonym jschar = "16 word"
type_synonym jsstring = "jschar list"

definition js :: "string \<Rightarrow> jsstring" where
  "js s = map of_char s"

text \<open>
  \<open>String.prototype.trim\<close> removes WhiteSpace and LineTerminator code points from
  both ends: TAB, LF, VT, FF, CR, SP, NBSP, U+1680, U+2000..U+200A, U+2028, U+2029,
  U+202F, U+205F, U+3000 and U+FEFF. All of them are single code units.
\<close>

definition isWhiteSpace :: "jschar \<Rightarrow> bool" where
  "isWhiteSpace c \<longleftrightarrow>
     c = 0x0009 \<or> c = 0x000A \<or> c = 0x000B \<or> c = 0x000C \<or> c = 0x000D \<or>
     c = 0x0020 \<or> c = 0x00A0 \<or> c = 0x1680 \<or> (0x2000 \<le> c \<and> c \<le> 0x200A) \<or>
     c = 0x2028 \<or> c = 0x2029 \<or> c = 0x202F \<or> c = 0x205F \<or> c = 0x3000 \<or>
     c = 0xFEFF"

definition trim :: "jsstring \<Rightarrow> jsstring" where
  "trim s = rev (dropWhile isWhiteSpace (rev (dropWhile isWhiteSpace s)))"

text \<open>A string is truthy when it is not empty.\<close>

definition truthy :: "jsstring \<Rightarrow> bool" where
  "truthy s \<longleftrightarrow> s \<noteq> []"

subsection \<open>Numbers in template literals\<close>

text \<open>
  \<open>log.date.getTime()\<close> is an integer number of milliseconds (negative before 1970);
  a template literal renders it in decimal, with a leading minus sign when negative.
\<close>

definition digitChar :: "nat \<Rightarrow> jschar" where
  "digitChar d = of_nat (48 + d)"

fun digits :: "nat \<Rightarrow> jsstring" where
  "digits n = (if n < 10 then [digitChar n] else digits (n div 10) @ [digitChar (n mod 10)])"

declare digits.simps [simp del]

definition ToString :: "int \<Rightarrow> jsstring" where
  "ToString t = (if t < 0 then 0x2D # digits (nat (- t)) else digits (nat t))"

subsection \<open>JSON.stringify\<close>

text \<open>
  QuoteJSONString: the two-character escapes, \<open>\<^verbatim>\<open>\u\<close>\<close> with four lowercase
  hexadecimal digits for the other control characters and for lone surrogates, and
  every other code unit as it is. A leading surrogate followed by a trailing one is a
  well-formed pair and is copied.
\<close>

definition hexDigit :: "nat \<Rightarrow> jschar" where
  "hexDigit n = (if n < 10 then of_nat (48 + n) else of_nat (87 + n))"

definition UnicodeEscape :: "jschar \<Rightarrow> jsstring" where
  "UnicodeEscape c =
     [0x5C, 0x75, hexDigit (unat c div 4096 mod 16), hexDigit (unat c div 256 mod 16),
      hexDigit (unat c div 16 mod 16), hexDigit (unat c mod 16)]"

definition isLeadingSurrogate :: "jschar \<Rightarrow> bool" where
  "isLeadingSurrogate c \<longleftrightarrow> 0xD800 \<le> c \<and> c \<le> 0xDBFF"

definition isTrailingSurrogate :: "jschar \<Rightarrow> bool" where
  "isTrailingSurrogate c \<longleftrightarrow> 0xDC00 \<le> c \<and> c \<le> 0xDFFF"

definition quoteUnit :: "jschar \<Rightarrow> jsstring" where
  "quoteUnit c =
     (if c = 0x08 then [0x5C, 0x62]
      else if c = 0x09 then [0x5C, 0x74]
      else if c = 0x0A then [0x5C, 0x6E]
      else if c = 0x0C then [0x5C, 0x66]
      else if c = 0x0D then [0x5C, 0x72]
      else if c = 0x22 then [0x5C, 0x22]
      else if c = 0x5C then [0x5C, 0x5C]
      else if c < 0x20 \<or> isLeadingSurrogate c \<or> isTrailingSurrogate c then UnicodeEscape c
      else [c])"

fun quoteUnits :: "jsstring \<Rightarrow> jsstring" where
  "quoteUnits [] = []"
| "quoteUnits [c] = quoteUnit c"
| "quoteUnits (c # d # cs) =
     (if isLeadingSurrogate c \<and> isTrailingSurrogate d then c # d # quoteUnits cs
      else quoteUnit c @ quoteUnits (d # cs))"

definition QuoteJSONString :: "jsstring \<Rightarrow> jsstring" where
  "QuoteJSONString s = 0x22 # quoteUnits s @ [0x22]"

text \<open>
  The arguments of a function call are an object whose values are strings (the
  declared parameter schemas are all string-typed). The object is held as the list
  of its properties in the order JavaScript enumerates them, which is the order
  \<open>JSON.stringify\<close> writes them in; a key occurs once.
\<close>

type_synonym args = "(jsstring \<times> jsstring) list"

fun joinWith :: "jsstring \<Rightarrow> jsstring list \<Rightarrow> jsstring" where
  "joinWith sep [] = []"
| "joinWith sep [x] = x"
| "joinWith sep (x # y # xs) = x @ sep @ joinWith sep (y # xs)"

definition stringifyProperty :: "jsstring \<times> jsstring \<Rightarrow> jsstring" where
  "stringifyProperty p = QuoteJSONString (fst p) @ [0x3A] @ QuoteJSONString (snd p)"

definition stringifyObject :: "args \<Rightarrow> jsstring" where
  "stringifyObject a = [0x7B] @ joinWith [0x2C] (map stringifyProperty a) @ [0x7D]"

text \<open>
  \<open>JSON.stringify(undefined)\<close> is \<open>undefined\<close>, which a template literal renders as
  the nine letters.
\<close>

definition stringifyInTemplate :: "args option \<Rightarrow> jsstring" where
  "stringifyInTemplate a = (case a of None \<Rightarrow> js ''undefined'' | Some obj \<Rightarrow> stringifyObject obj)"

text \<open>\<open>obj.key\<close>: the value of the property, \<open>undefined\<close> when there is none.\<close>

definition getProperty :: "args \<Rightarrow> jsstring \<Rightarrow> jsstring option" where
  "getProperty obj k = map_of obj k"

section \<open>The events of the log\<close>

text \<open>
  A part of a turn carries an optional \<open>text\<close> and an optional \<open>functionCall\<close>;
  a function call has a name and optional \<open>args\<close>.
\<close>

record function_call =
  fc_name :: jsstring
  fc_args :: "args option"

record part =
  part_text :: "jsstring option"
  part_functionCall :: "function_call option"

text \<open>
  The log's messages are untyped: the effect looks for the keys \<open>turns\<close>,
  \<open>turnComplete\<close> and \<open>serverContent\<close>. \<open>None\<close> is a key that is not there (for
  \<open>serverContent\<close>, \<open>modelTurn\<close> and \<open>parts\<close> also a value that is
  \<open>undefined\<close>, which the optional chaining treats alike).
\<close>

record model_turn =
  mt_parts :: "part list option"

record server_content =
  sc_modelTurn :: "model_turn option"

record message_object =
  msg_turns :: "part list option"
  msg_turnComplete :: "bool option"
  msg_serverContent :: "server_content option"

datatype log_message = StringMessage jsstring | ObjectMessage message_object

record streaming_log =
  log_date :: int
  log_message :: log_message

section \<open>The conversation\<close>

datatype role = User | Model

record conversation_entry =
  entry_role :: role
  entry_text :: jsstring
  entry_time :: int

section \<open>The voice bridge relay\<close>

text \<open>
  \<open>VOICE_BRIDGE_URL\<close> and \<open>VOICE_BRIDGE_SECRET\<close> come from the environment, with
  defaults; they are parameters here.
\<close>

record config =
  VOICE_BRIDGE_URL :: jsstring
  VOICE_BRIDGE_SECRET :: jsstring

record http_request =
  req_url :: jsstring
  req_method :: jsstring
  req_contentType :: jsstring
  req_body :: jsstring

text \<open>
  The bodies \<open>JSON.stringify({ secret, action, params })\<close> and
  \<open>JSON.stringify({ secret, command })\<close>; a property whose value is \<open>undefined\<close>
  is left out by \<open>JSON.stringify\<close>.
\<close>

definition actionBody :: "jsstring \<Rightarrow> jsstring \<Rightarrow> args \<Rightarrow> jsstring" where
  "actionBody secret action params =
     [0x7B] @ QuoteJSONString (js ''secret'') @ [0x3A] @ QuoteJSONString secret @ [0x2C] @
     QuoteJSONString (js ''action'') @ [0x3A] @ QuoteJSONString action @ [0x2C] @
     QuoteJSONString (js ''params'') @ [0x3A] @ stringifyObject params @ [0x7D]"

definition commandBody :: "jsstring \<Rightarrow> jsstring option \<Rightarrow> jsstring" where
  "commandBody secret command =
     [0x7B] @ QuoteJSONString (js ''secret'') @ [0x3A] @ QuoteJSONString secret @
     (case command of None \<Rightarrow> []
      | Some c \<Rightarrow> [0x2C] @ QuoteJSONString (js ''command'') @ [0x3A] @ QuoteJSONString c) @
     [0x7D]"

definition actionRequest :: "config \<Rightarrow> jsstring \<Rightarrow> args \<Rightarrow> http_request" where
  "actionRequest cfg action params =
     \<lparr>req_url = VOICE_BRIDGE_URL cfg @ js ''/action'', req_method = js ''POST'',
      req_contentType = js ''application/json'',
      req_body = actionBody (VOICE_BRIDGE_SECRET cfg) action params\<rparr>"

definition commandRequest :: "config \<Rightarrow> jsstring option \<Rightarrow> http_request" where
  "commandRequest cfg command =
     \<lparr>req_url = VOICE_BRIDGE_URL cfg @ js ''/command'', req_method = js ''POST'',
      req_contentType = js ''application/json'',
      req_body = commandBody (VOICE_BRIDGE_SECRET cfg) command\<rparr>"

text \<open>
  What the relay endpoint can do with a request: \<open>fetch\<close> rejects with an error, or it
  resolves with a response whose body is not JSON (\<open>resp.json()\<close> rejects), is the
  JSON \<open>null\<close> (reading \<open>data.status\<close> throws), or is a JSON value with an optional
  \<open>status\<close> and an optional \<open>message\<close>. An error is held as the text a template
  literal gives it.
\<close>

datatype response_body =
  NotJSON jsstring
| JSONNull
| JSONData (data_status: "jsstring option") (data_message: "jsstring option")

datatype fetch_outcome = Rejects jsstring | Resolves response_body

record bridge_result =
  success :: bool
  message :: jsstring

text \<open>
  The \<open>try\<close> block of \<open>sendToBridge\<close>; \<open>Inl e\<close> is the exception \<open>e\<close> thrown
  inside it.
\<close>

definition nullAccessError :: jsstring where
  "nullAccessError = js ''TypeError: data is null''"

definition sendToBridge_try :: "fetch_outcome \<Rightarrow> jsstring + bridge_result" where
  "sendToBridge_try outcome =
     (case outcome of
        Rejects e \<Rightarrow> Inl e
      | Resolves (NotJSON e) \<Rightarrow> Inl e
      | Resolves JSONNull \<Rightarrow> Inl nullAccessError
      | Resolves (JSONData st m) \<Rightarrow>
          Inr \<lparr>success = (st = Some (js ''sent'')),
               message = (case m of None \<Rightarrow> js ''sent''
                          | Some t \<Rightarrow> if truthy t then t else js ''sent'')\<rparr>)"

text \<open>
  \<open>sendToBridge(action, params)\<close> against a network \<open>net\<close> that decides the outcome
  of the request; \<open>Inl e\<close> would be a rejection of the promise it returns.
\<close>

definition sendToBridge ::
  "config \<Rightarrow> (http_request \<Rightarrow> fetch_outcome) \<Rightarrow> jsstring \<Rightarrow> args \<Rightarrow> jsstring + bridge_result" where
  "sendToBridge cfg net action params =
     (case sendToBridge_try (net (actionRequest cfg action params)) of
        Inl e \<Rightarrow> Inr \<lparr>success = False, message = js ''Bridge error: '' @ e\<rparr>
      | Inr r \<Rightarrow> Inr r)"

text \<open>
  The two relay calls the effect starts: \<open>sendToBridge(action, params)\<close>, or the bare
  \<open>fetch\<close> of the \<open>/command\<close> endpoint with \<open>params.message\<close>.
\<close>

datatype relay_call = SendToBridge jsstring args | FetchCommand "jsstring option"


text \<open>
  Both calls end in \<open>.catch(console.error)\<close>: a rejection is logged to the console
  and the value the promise resolves to is dropped. \<open>settle\<close> gives the errors
  logged, \<open>resultOf\<close> the \<open>{success, message}\<close> the call computes, if it computes one.
\<close>

definition settle :: "config \<Rightarrow> (http_request \<Rightarrow> fetch_outcome) \<Rightarrow> relay_call \<Rightarrow> jsstring list" where
  "settle cfg net c =
     (case c of
        SendToBridge action params \<Rightarrow>
          (case sendToBridge cfg net action params of Inl e \<Rightarrow> [e] | Inr r \<Rightarrow> [])
      | FetchCommand command \<Rightarrow>
          (case net (commandRequest cfg command) of Rejects e \<Rightarrow> [e] | Resolves b \<Rightarrow> []))"


section \<open>The effect that reduces the log\<close>

text \<open>
  The state of one pass: the \<open>entries\<close> array, the \<open>handledCalls\<close> set (a ref that
  lives across passes), and, as a trace, every relay call the pass started with the
  \<open>callId\<close> it ran under, and what reached \<open>console.error\<close>. The \<open>n\<close>-th relay call
  of a pass gets its outcome from \<open>net n\<close>.
\<close>

record effect_state =
  entries :: "conversation_entry list"
  handledCalls :: "jsstring set"
  dispatched :: "(jsstring \<times> relay_call) list"
  console :: "jsstring list"

type_synonym network = "nat \<Rightarrow> http_request \<Rightarrow> fetch_outcome"

text \<open>
  The test on a part's text, \<^verbatim>\<open>part.text && part.text.trim() && part.text !== "\n"\<close>,
  for a text that is there; a part that passes pushes one entry with the text as it is
  and \<open>log.date\<close>.
\<close>

definition textPasses :: "jsstring \<Rightarrow> bool" where
  "textPasses t \<longleftrightarrow> truthy t \<and> truthy (trim t) \<and> t \<noteq> [0x0A]"

definition pushText :: "role \<Rightarrow> int \<Rightarrow> part \<Rightarrow> effect_state \<Rightarrow> effect_state" where
  "pushText r date p st =
     (case part_text p of None \<Rightarrow> st
      | Some t \<Rightarrow>
          if textPasses t
          then st\<lparr>entries := entries st @ [\<lparr>entry_role = r, entry_text = t, entry_time = date\<rparr>]\<rparr>
          else st)"

text \<open>
  \<^verbatim>\<open>`${fc.name}-${JSON.stringify(fc.args)}-${log.date.getTime()}`\<close>
\<close>

definition callId :: "function_call \<Rightarrow> int \<Rightarrow> jsstring" where
  "callId fc date = fc_name fc @ js ''-'' @ stringifyInTemplate (fc_args fc) @ js ''-'' @ ToString date"

text \<open>The wrench emoji U+1F527 is the surrogate pair D83D DD27.\<close>

definition announcement :: "function_call \<Rightarrow> jsstring" where
  "announcement fc =
     [0xD83D, 0xDD27] @ js '' Sending to OpenClaw: '' @ fc_name fc @ js ''('' @
     stringifyObject (case fc_args fc of None \<Rightarrow> [] | Some a \<Rightarrow> a) @ js '')''"

text \<open>
  The relay call of a function call: \<open>send_message\<close> goes to the \<open>/command\<close> endpoint
  with \<open>params.message\<close>, every other name to \<open>sendToBridge(action, params)\<close>, where
  \<open>params\<close> is \<open>fc.args || {}\<close>.
\<close>

definition relayCall :: "function_call \<Rightarrow> relay_call" where
  "relayCall fc =
     (let action = (if fc_name fc = js ''send_message'' then js ''send_message'' else fc_name fc);
          params = (case fc_args fc of None \<Rightarrow> [] | Some a \<Rightarrow> a)
      in if action = js ''send_message'' then FetchCommand (getProperty params (js ''message''))
         else SendToBridge action params)"

text \<open>
  The block under \<open>if (part.functionCall)\<close>: nothing happens for a \<open>callId\<close> that is in
  \<open>handledCalls\<close>; otherwise the \<open>callId\<close> is added, the announcement is pushed and
  the relay call is started, fire and forget.
\<close>

definition handleFunctionCall ::
  "config \<Rightarrow> network \<Rightarrow> int \<Rightarrow> function_call \<Rightarrow> effect_state \<Rightarrow> effect_state" where
  "handleFunctionCall cfg net date fc st =
     (let cid = callId fc date in
      if cid \<in> handledCalls st then st
      else
        st\<lparr>handledCalls := insert cid (handledCalls st),
           entries := entries st @
             [\<lparr>entry_role = Model, entry_text = announcement fc, entry_time = date\<rparr>],
           dispatched := dispatched st @ [(cid, relayCall fc)],
           console := console st @ settle cfg (net (length (dispatched st))) (relayCall fc)\<rparr>)"

definition modelPart :: "config \<Rightarrow> network \<Rightarrow> int \<Rightarrow> part \<Rightarrow> effect_state \<Rightarrow> effect_state" where
  "modelPart cfg net date p st =
     (let st1 = pushText Model date p st in
      case part_functionCall p of None \<Rightarrow> st1
      | Some fc \<Rightarrow> handleFunctionCall cfg net date fc st1)"

text \<open>
  The loops over the parts of a user turn (a message with both keys \<open>turns\<close> and
  \<open>turnComplete\<close>) and of a server turn (\<open>serverContent.modelTurn.parts\<close>), the two
  \<open>if\<close>s on a message that is an object, and the loop over the log.
\<close>

fun userParts :: "int \<Rightarrow> part list \<Rightarrow> effect_state \<Rightarrow> effect_state" where
  "userParts date [] st = st"
| "userParts date (p # ps) st = userParts date ps (pushText User date p st)"

fun modelParts :: "config \<Rightarrow> network \<Rightarrow> int \<Rightarrow> part list \<Rightarrow> effect_state \<Rightarrow> effect_state" where
  "modelParts cfg net date [] st = st"
| "modelParts cfg net date (p # ps) st = modelParts cfg net date ps (modelPart cfg net date p st)"

definition userTurn :: "int \<Rightarrow> message_object \<Rightarrow> effect_state \<Rightarrow> effect_state" where
  "userTurn date m st =
     (case (msg_turns m, msg_turnComplete m) of
        (Some turns, Some tc) \<Rightarrow> userParts date turns st
      | _ \<Rightarrow> st)"

definition serverTurn ::
  "config \<Rightarrow> network \<Rightarrow> int \<Rightarrow> message_object \<Rightarrow> effect_state \<Rightarrow> effect_state" where
  "serverTurn cfg net date m st =
     (case msg_serverContent m of None \<Rightarrow> st
      | Some sc \<Rightarrow>
          (case sc_modelTurn sc of None \<Rightarrow> st
           | Some mt \<Rightarrow>
               (case mt_parts mt of None \<Rightarrow> st
                | Some ps \<Rightarrow> modelParts cfg net date ps st)))"

definition processLog :: "config \<Rightarrow> network \<Rightarrow> streaming_log \<Rightarrow> effect_state \<Rightarrow> effect_state" where
  "processLog cfg net l st =
     (case log_message l of
        StringMessage s \<Rightarrow> st
      | ObjectMessage m \<Rightarrow> serverTurn cfg net (log_date l) m (userTurn (log_date l) m st))"

fun processLogs :: "config \<Rightarrow> network \<Rightarrow> streaming_log list \<Rightarrow> effect_state \<Rightarrow> effect_state" where
  "processLogs cfg net [] st = st"
| "processLogs cfg net (l # ls) st = processLogs cfg net ls (processLog cfg net l st)"

text \<open>
  One pass of the effect over \<open>logs\<close>, entered with the \<open>handledCalls\<close> the earlier
  passes left: \<open>entries\<close> starts empty and \<open>setConversation(entries)\<close> makes its final
  value the conversation.
\<close>

definition effect :: "config \<Rightarrow> network \<Rightarrow> jsstring set \<Rightarrow> streaming_log list \<Rightarrow> effect_state" where
  "effect cfg net handled logs =
     processLogs cfg net logs \<lparr>entries = [], handledCalls = handled, dispatched = [], console = []\<rparr>"

definition conversation :: "effect_state \<Rightarrow> conversation_entry list" where
  "conversation st = entries st"

section \<open>The pass as a fold over a flat list of steps\<close>

text \<open>
  For the proofs, the nested loops are flattened: a log gives the list of the steps
  its parts make the effect take, a text push per part and a function-call step per
  part that has one, and a pass is the fold of \<open>step\<close> over them
  (\<open>processLogs_fold\<close> below).
\<close>

datatype item = PushText role int part | HandleCall int function_call

definition partItems :: "int \<Rightarrow> part \<Rightarrow> item list" where
  "partItems date p =
     PushText Model date p #
     (case part_functionCall p of None \<Rightarrow> [] | Some fc \<Rightarrow> [HandleCall date fc])"

definition userItems :: "int \<Rightarrow> message_object \<Rightarrow> item list" where
  "userItems date m =
     (case (msg_turns m, msg_turnComplete m) of
        (Some turns, Some tc) \<Rightarrow> map (PushText User date) turns
      | _ \<Rightarrow> [])"

definition serverItems :: "int \<Rightarrow> message_object \<Rightarrow> item list" where
  "serverItems date m =
     (case msg_serverContent m of None \<Rightarrow> []
      | Some sc \<Rightarrow>
          (case sc_modelTurn sc of None \<Rightarrow> []
           | Some mt \<Rightarrow>
               (case mt_parts mt of None \<Rightarrow> []
                | Some ps \<Rightarrow> concat (map (partItems date) ps))))"

definition logItems :: "streaming_log \<Rightarrow> item list" where
  "logItems l =
     (case log_message l of StringMessage s \<Rightarrow> []
      | ObjectMessage m \<Rightarrow> userItems (log_date l) m @ serverItems (log_date l) m)"

definition step :: "config \<Rightarrow> network \<Rightarrow> item \<Rightarrow> effect_state \<Rightarrow> effect_state" where
  "step cfg net it st =
     (case it of PushText r date p \<Rightarrow> pushText r date p st
      | HandleCall date fc \<Rightarrow> handleFunctionCall cfg net date fc st)"

definition items :: "streaming_log list \<Rightarrow> item list" where
  "items logs = concat (map logItems logs)"

text \<open>
  What a step adds to \<open>entries\<close> and to the trace of relay calls, and the key it
  adds to \<open>handledCalls\<close>, as functions of the set of handled keys alone.
\<close>

definition emitted :: "item \<Rightarrow> jsstring set \<Rightarrow> conversation_entry list" where
  "emitted it H =
     (case it of
        PushText r date p \<Rightarrow>
          (case part_text p of None \<Rightarrow> []
           | Some t \<Rightarrow> if textPasses t then [\<lparr>entry_role = r, entry_text = t, entry_time = date\<rparr>] else [])
      | HandleCall date fc \<Rightarrow>
          if callId fc date \<in> H then []
          else [\<lparr>entry_role = Model, entry_text = announcement fc, entry_time = date\<rparr>])"

definition started :: "item \<Rightarrow> jsstring set \<Rightarrow> (jsstring \<times> relay_call) list" where
  "started it H =
     (case it of PushText r date p \<Rightarrow> []
      | HandleCall date fc \<Rightarrow> if callId fc date \<in> H then [] else [(callId fc date, relayCall fc)])"

definition itemKeys :: "item \<Rightarrow> jsstring set" where
  "itemKeys it = (case it of PushText r date p \<Rightarrow> {} | HandleCall date fc \<Rightarrow> {callId fc date})"

fun derive :: "item list \<Rightarrow> jsstring set \<Rightarrow> conversation_entry list" where
  "derive [] H = []"
| "derive (it # its) H = emitted it H @ derive its (H \<union> itemKeys it)"

fun startedAll :: "item list \<Rightarrow> jsstring set \<Rightarrow> (jsstring \<times> relay_call) list" where
  "startedAll [] H = []"
| "startedAll (it # its) H = started it H @ startedAll its (H \<union> itemKeys it)"

text \<open>The value of a decimal numeral, to show that \<open>ToString\<close> is injective.\<close>

definition decimal :: "jsstring \<Rightarrow> nat" where
  "decimal s = foldl (\<lambda>a c. 10 * a + (unat c - 48)) 0 s"

section \<open>Notions of the specification\<close>

text \<open>
  A text that is absent, empty, whitespace-only or a bare newline, and the entry a part's
  text gives otherwise.
\<close>

definition blank :: "jsstring option \<Rightarrow> bool" where
  "blank t =
     (case t of None \<Rightarrow> True
      | Some s \<Rightarrow> s = [] \<or> list_all isWhiteSpace s \<or> s = [0x0A])"

definition textEntries :: "role \<Rightarrow> int \<Rightarrow> part \<Rightarrow> conversation_entry list" where
  "textEntries r date p =
     (case part_text p of None \<Rightarrow> []
      | Some t \<Rightarrow>
          if blank (Some t) then []
          else [\<lparr>entry_role = r, entry_text = t, entry_time = date\<rparr>])"

text \<open>
  The function calls of a log, each with the date of its event, in the order the effect
  meets them: the parts of \<open>serverContent.modelTurn.parts\<close> that have a
  \<open>functionCall\<close>.
\<close>

definition partCalls :: "int \<Rightarrow> part \<Rightarrow> (function_call \<times> int) list" where
  "partCalls date p = (case part_functionCall p of None \<Rightarrow> [] | Some fc \<Rightarrow> [(fc, date)])"

definition logCalls :: "streaming_log \<Rightarrow> (function_call \<times> int) list" where
  "logCalls l =
     (case log_message l of StringMessage s \<Rightarrow> []
      | ObjectMessage m \<Rightarrow>
          (case msg_serverContent m of None \<Rightarrow> []
           | Some sc \<Rightarrow>
               (case sc_modelTurn sc of None \<Rightarrow> []
                | Some mt \<Rightarrow>
                    (case mt_parts mt of None \<Rightarrow> []
                     | Some ps \<Rightarrow> concat (map (partCalls (log_date l)) ps)))))"

definition functionCalls :: "streaming_log list \<Rightarrow> (function_call \<times> int) list" where
  "functionCalls logs = concat (map logCalls logs)"

definition itemCalls :: "item \<Rightarrow> (function_call \<times> int) list" where
  "itemCalls it = (case it of PushText r date p \<Rightarrow> [] | HandleCall date fc \<Rightarrow> [(fc, date)])"

definition keyOf :: "function_call \<times> int \<Rightarrow> jsstring" where
  "keyOf c = callId (fst c) (snd c)"

text \<open>How often a pass started a relay call under the key \<open>k\<close>.\<close>

definition invocations :: "jsstring \<Rightarrow> effect_state \<Rightarrow> nat" where
  "invocations k st = length (filter (\<lambda>d. fst d = k) (dispatched st))"

section \<open>Example logs\<close>

definition exampleConfig :: config where
  "exampleConfig = \<lparr>VOICE_BRIDGE_URL = js ''http://relay'', VOICE_BRIDGE_SECRET = js ''secret''\<rparr>"

definition failingNet :: network where
  "failingNet n r = Rejects (js ''TypeError: Failed to fetch'')"

definition sendingNet :: network where
  "sendingNet n r = Resolves (JSONData (Some (js ''sent'')) None)"

definition serverTurnLog :: "int \<Rightarrow> part list \<Rightarrow> streaming_log" where
  "serverTurnLog date ps =
     \<lparr>log_date = date,
      log_message = ObjectMessage
        \<lparr>msg_turns = None, msg_turnComplete = None,
         msg_serverContent = Some \<lparr>sc_modelTurn = Some \<lparr>mt_parts = Some ps\<rparr>\<rparr>\<rparr>\<rparr>"

definition userTurnLog :: "int \<Rightarrow> part list \<Rightarrow> streaming_log" where
  "userTurnLog date ps =
     \<lparr>log_date = date,
      log_message = ObjectMessage
        \<lparr>msg_turns = Some ps, msg_turnComplete = Some True, msg_serverContent = None\<rparr>\<rparr>"

definition textPart :: "jsstring \<Rightarrow> part" where
  "textPart t = \<lparr>part_text = Some t, part_functionCall = None\<rparr>"

definition callPart :: "function_call \<Rightarrow> part" where
  "callPart fc = \<lparr>part_text = None, part_functionCall = Some fc\<rparr>"

definition createTask :: function_call where
  "createTask = \<lparr>fc_name = js ''create_task'', fc_args = Some [(js ''title'', js ''Buy milk'')]\<rparr>"


section \<open>The pass is the fold\<close>

lemma userParts_fold: "userParts date ps st = fold (step cfg net) (map (PushText User date) ps) st"
  by (induction ps arbitrary: st) (simp_all add: step_def)

lemma modelPart_fold: "modelPart cfg net date p st = fold (step cfg net) (partItems date p) st"
  by (simp add: modelPart_def partItems_def step_def split: option.split)

lemma modelParts_fold:
  "modelParts cfg net date ps st = fold (step cfg net) (concat (map (partItems date) ps)) st"
  by (induction ps arbitrary: st) (simp_all add: modelPart_fold)

lemma userTurn_fold: "userTurn date m st = fold (step cfg net) (userItems date m) st"
  by (simp add: userTurn_def userItems_def userParts_fold [of _ _ _ cfg net] split: option.split)

lemma serverTurn_fold: "serverTurn cfg net date m st = fold (step cfg net) (serverItems date m) st"
  by (simp add: serverTurn_def serverItems_def modelParts_fold split: option.split)

lemma processLog_fold: "processLog cfg net l st = fold (step cfg net) (logItems l) st"
  by (simp add: processLog_def logItems_def serverTurn_fold userTurn_fold [of _ _ _ cfg net]
      split: log_message.split)

lemma processLogs_fold:
  "processLogs cfg net logs st = fold (step cfg net) (concat (map logItems logs)) st"
  by (induction logs arbitrary: st) (simp_all add: processLog_fold)

lemma processLogs_append:
  "processLogs cfg net (xs @ ys) st = processLogs cfg net ys (processLogs cfg net xs st)"
  by (simp add: processLogs_fold)


section \<open>Entries, handled keys and relay calls of a pass\<close>

lemma entries_step: "entries (step cfg net it st) = entries st @ emitted it (handledCalls st)"
  by (simp add: step_def emitted_def pushText_def handleFunctionCall_def Let_def
      split: item.split option.split)

lemma handledCalls_step: "handledCalls (step cfg net it st) = handledCalls st \<union> itemKeys it"
  by (auto simp add: step_def itemKeys_def pushText_def handleFunctionCall_def Let_def
      split: item.split option.split)

lemma dispatched_step: "dispatched (step cfg net it st) = dispatched st @ started it (handledCalls st)"
  by (simp add: step_def started_def pushText_def handleFunctionCall_def Let_def
      split: item.split option.split)

lemma entries_fold:
  "entries (fold (step cfg net) its st) = entries st @ derive its (handledCalls st)"
  by (induction its arbitrary: st) (simp_all add: entries_step handledCalls_step)

lemma handledCalls_fold:
  "handledCalls (fold (step cfg net) its st) = handledCalls st \<union> \<Union> (itemKeys ` set its)"
  by (induction its arbitrary: st) (auto simp add: handledCalls_step)

lemma dispatched_fold:
  "dispatched (fold (step cfg net) its st) = dispatched st @ startedAll its (handledCalls st)"
  by (induction its arbitrary: st) (simp_all add: dispatched_step handledCalls_step)

lemma derive_append: "derive (xs @ ys) H = derive xs H @ derive ys (H \<union> \<Union> (itemKeys ` set xs))"
  by (induction xs arbitrary: H) (simp_all add: Un_assoc)

lemma startedAll_append:
  "startedAll (xs @ ys) H = startedAll xs H @ startedAll ys (H \<union> \<Union> (itemKeys ` set xs))"
  by (induction xs arbitrary: H) (simp_all add: Un_assoc)

lemma count_startedAll:
  "length (filter (\<lambda>d. fst d = k) (startedAll its H)) =
     (if k \<in> \<Union> (itemKeys ` set its) \<and> k \<notin> H then 1 else 0)"
proof (induction its arbitrary: H)
  case Nil
  show ?case by simp
next
  case (Cons it its)
  show ?case
  proof (cases it)
    case (PushText r date p)
    then show ?thesis using Cons [of H] by (simp add: started_def itemKeys_def)
  next
    case (HandleCall date fc)
    then show ?thesis using Cons [of "H \<union> {callId fc date}"]
      by (auto simp add: started_def itemKeys_def)
  qed
qed

lemma keys_startedAll: "fst ` set (startedAll its H) = \<Union> (itemKeys ` set its) - H"
proof (induction its arbitrary: H)
  case Nil
  show ?case by simp
next
  case (Cons it its)
  show ?case
    by (cases it) (auto simp add: Cons started_def itemKeys_def image_Un)
qed

lemma distinct_startedAll: "distinct (map fst (startedAll its H))"
proof (induction its arbitrary: H)
  case Nil
  show ?case by simp
next
  case (Cons it its)
  have "fst ` set (started it H) \<inter> fst ` set (startedAll its (H \<union> itemKeys it)) = {}"
    by (cases it) (auto simp add: started_def itemKeys_def keys_startedAll)
  moreover have "distinct (map fst (started it H))"
    by (cases it) (simp_all add: started_def)
  ultimately show ?case using Cons by simp
qed


section \<open>Strings and numbers\<close>

lemma decimal_snoc: "decimal (s @ [c]) = 10 * decimal s + (unat c - 48)"
  by (simp add: decimal_def)

lemma unat_digitChar: "d < 10 \<Longrightarrow> unat (digitChar d) = 48 + d"
  unfolding digitChar_def unat_of_nat by simp

lemma decimal_digits: "decimal (digits n) = n"
proof (induction n rule: digits.induct)
  case (1 n)
  show ?case
  proof (cases "n < 10")
    case True
    then show ?thesis
      by (subst digits.simps) (simp add: decimal_def unat_digitChar)
  next
    case False
    have "n mod 10 < 10" by simp
    then have u: "unat (digitChar (n mod 10)) = 48 + n mod 10"
      by (rule unat_digitChar)
    from False have "decimal (digits n) = 10 * decimal (digits (n div 10)) + n mod 10"
      by (subst digits.simps) (simp add: decimal_snoc u)
    with 1 False show ?thesis by simp
  qed
qed

lemma digits_inj: "digits m = digits n \<Longrightarrow> m = n"
  by (metis decimal_digits)

lemma minus_notin_digits: "0x2D \<notin> set (digits n)"
proof (induction n rule: digits.induct)
  case (1 n)
  have neq: "digitChar d \<noteq> 0x2D" if "d < 10" for d
  proof
    assume "digitChar d = 0x2D"
    then have "unat (digitChar d) = unat (0x2D :: jschar)" by simp
    with that show False by (simp add: unat_digitChar)
  qed
  show ?case
  proof (cases "n < 10")
    case True
    then show ?thesis using neq [of n] by (subst digits.simps) auto
  next
    case False
    have "n mod 10 < 10" by simp
    from neq [OF this] 1 False show ?thesis by (subst digits.simps) auto
  qed
qed

lemma ToString_inj: "ToString s = ToString t \<Longrightarrow> s = t"
proof -
  assume eq: "ToString s = ToString t"
  consider "s < 0" "t < 0" | "s < 0" "\<not> t < 0" | "\<not> s < 0" "t < 0" | "\<not> s < 0" "\<not> t < 0"
    by blast
  then show ?thesis
  proof cases
    case 1
    with eq have "nat (- s) = nat (- t)" by (simp add: ToString_def digits_inj)
    with 1 show ?thesis by simp
  next
    case 2
    with eq have "0x2D # digits (nat (- s)) = digits (nat t)"
      by (simp add: ToString_def)
    then have "0x2D \<in> set (digits (nat t))"
      by (metis list.set_intros(1))
    then show ?thesis using minus_notin_digits by blast
  next
    case 3
    with eq have "digits (nat s) = 0x2D # digits (nat (- t))"
      by (simp add: ToString_def)
    then have "0x2D \<in> set (digits (nat s))"
      by (metis list.set_intros(1))
    then show ?thesis using minus_notin_digits by blast
  next
    case 4
    with eq have "nat s = nat t" by (simp add: ToString_def digits_inj)
    with 4 show ?thesis by simp
  qed
qed

lemma trim_Nil_iff: "trim s = [] \<longleftrightarrow> (\<forall>c\<in>set s. isWhiteSpace c)"
proof
  assume "trim s = []"
  then have a: "\<forall>c\<in>set (dropWhile isWhiteSpace s). isWhiteSpace c"
    by (simp add: trim_def dropWhile_eq_Nil_conv)
  have "dropWhile isWhiteSpace s = []"
  proof (rule ccontr)
    assume ne: "dropWhile isWhiteSpace s \<noteq> []"
    then have "\<not> isWhiteSpace (hd (dropWhile isWhiteSpace s))" by (rule hd_dropWhile)
    moreover from ne have "hd (dropWhile isWhiteSpace s) \<in> set (dropWhile isWhiteSpace s)" by simp
    ultimately show False using a by blast
  qed
  then show "\<forall>c\<in>set s. isWhiteSpace c" by (simp add: dropWhile_eq_Nil_conv)
next
  assume "\<forall>c\<in>set s. isWhiteSpace c"
  then show "trim s = []" by (auto simp add: trim_def dest: set_dropWhileD)
qed

lemma textPasses_iff: "textPasses t \<longleftrightarrow> \<not> blank (Some t)"
  by (auto simp add: textPasses_def blank_def truthy_def trim_Nil_iff list_all_iff isWhiteSpace_def)

lemma callId_date_inj: "callId fc d = callId fc d' \<Longrightarrow> d = d'"
  by (simp add: callId_def ToString_inj)

lemma callId_args_inj:
  "callId \<lparr>fc_name = n, fc_args = Some a\<rparr> d = callId \<lparr>fc_name = n, fc_args = Some a'\<rparr> d
     \<longleftrightarrow> stringifyObject a = stringifyObject a'"
  by (simp add: callId_def stringifyInTemplate_def)


section \<open>A pass in terms of the function calls of its log\<close>

lemma itemKeys_itemCalls: "itemKeys it = keyOf ` set (itemCalls it)"
  by (simp add: itemKeys_def itemCalls_def keyOf_def split: item.split)

lemma keys_itemCalls: "\<Union> (itemKeys ` set its) = keyOf ` set (concat (map itemCalls its))"
  by (induction its) (simp_all add: itemKeys_itemCalls image_Un)

lemma calls_concat:
  "concat (map itemCalls (concat (map f xs))) = concat (map (\<lambda>x. concat (map itemCalls (f x))) xs)"
  by (induction xs) simp_all

lemma calls_partItems: "concat (map itemCalls (partItems date p)) = partCalls date p"
  by (simp add: partItems_def partCalls_def itemCalls_def split: option.split)

lemma calls_userItems: "concat (map itemCalls (userItems date m)) = []"
  by (cases "msg_turns m"; cases "msg_turnComplete m") (simp_all add: userItems_def itemCalls_def)

lemma calls_logItems: "concat (map itemCalls (logItems l)) = logCalls l"
  by (simp add: logItems_def logCalls_def serverItems_def calls_userItems calls_concat
      calls_partItems split: log_message.split option.split)

lemma calls_items: "concat (map itemCalls (items logs)) = functionCalls logs"
  by (simp add: items_def functionCalls_def calls_concat calls_logItems)

lemma itemKeys_items: "\<Union> (itemKeys ` set (items logs)) = keyOf ` set (functionCalls logs)"
  by (simp only: keys_itemCalls calls_items)

lemma effect_fold:
  "effect cfg net h logs =
     fold (step cfg net) (items logs) \<lparr>entries = [], handledCalls = h, dispatched = [], console = []\<rparr>"
  by (simp add: effect_def processLogs_fold items_def)

lemma conversation_effect: "conversation (effect cfg net h logs) = derive (items logs) h"
  by (simp add: conversation_def effect_fold entries_fold)

lemma handledCalls_effect:
  "handledCalls (effect cfg net h logs) = h \<union> keyOf ` set (functionCalls logs)"
  by (simp add: effect_fold handledCalls_fold itemKeys_items)

lemma dispatched_effect: "dispatched (effect cfg net h logs) = startedAll (items logs) h"
  by (simp add: effect_fold dispatched_fold)

lemma invocations_effect:
  "invocations k (effect cfg net h logs) =
     (if k \<in> keyOf ` set (functionCalls logs) \<and> k \<notin> h then 1 else 0)"
  by (simp add: invocations_def dispatched_effect count_startedAll itemKeys_items)

lemma items_append: "items (xs @ ys) = items xs @ items ys"
  by (simp add: items_def)

section \<open>Parts, turns and the console\<close>

lemma fixtures_calls:
  "functionCalls [serverTurnLog d [callPart fc], serverTurnLog d' [callPart fc']] = [(fc, d), (fc', d')]"
  by (simp add: functionCalls_def logCalls_def serverTurnLog_def callPart_def partCalls_def)

lemma textEntries_emitted: "emitted (PushText r date p) H = textEntries r date p"
  by (simp add: emitted_def textEntries_def textPasses_iff split: option.split)

lemma entries_pushText: "entries (pushText r date p st) = entries st @ textEntries r date p"
  using entries_step [of cfg net "PushText r date p" st]
  by (simp add: step_def textEntries_emitted)

lemma handledCalls_pushText: "handledCalls (pushText r date p st) = handledCalls st"
  by (simp add: pushText_def split: option.split)

lemma entries_userParts:
  "entries (userParts date ps st) = entries st @ concat (map (textEntries User date) ps)"
  by (induction ps arbitrary: st) (simp_all add: entries_pushText)

lemma entries_handleFunctionCall:
  "entries (handleFunctionCall cfg net date fc st) =
     entries st @
     (if callId fc date \<in> handledCalls st then []
      else [\<lparr>entry_role = Model, entry_text = announcement fc, entry_time = date\<rparr>])"
  by (simp add: handleFunctionCall_def Let_def)

lemma entries_modelPart:
  "entries (modelPart cfg net date p st) =
     entries st @ textEntries Model date p @
     (case part_functionCall p of None \<Rightarrow> []
      | Some fc \<Rightarrow>
          if callId fc date \<in> handledCalls st then []
          else [\<lparr>entry_role = Model, entry_text = announcement fc, entry_time = date\<rparr>])"
  by (simp add: modelPart_def entries_pushText entries_handleFunctionCall handledCalls_pushText
      split: option.split)





lemma effect_append:
  "effect cfg net h (xs @ ys) = processLogs cfg net ys (effect cfg net h xs)"
  by (simp add: effect_def processLogs_append)

lemma entries_processLogs:
  "entries (processLogs cfg net ys st) = entries st @ derive (items ys) (handledCalls st)"
  by (simp add: processLogs_fold entries_fold items_def)

lemma entries_processLog:
  "entries (processLog cfg net l st) = entries st @ derive (logItems l) (handledCalls st)"
  by (simp add: processLog_fold entries_fold)

lemma items_Cons: "items (l # ls) = logItems l @ items ls"
  by (simp add: items_def)

lemma conversation_split:
  "\<exists>e r. conversation (effect cfg net h (xs @ l # ys)) = conversation (effect cfg net h xs) @ e @ r \<and>
         entries (processLog cfg net l (effect cfg net h xs)) = entries (effect cfg net h xs) @ e \<and>
         conversation (effect cfg net h (xs @ [l])) = conversation (effect cfg net h xs) @ e"
proof -
  let ?H = "handledCalls (effect cfg net h xs)"
  let ?e = "derive (logItems l) ?H"
  have "conversation (effect cfg net h (xs @ l # ys)) =
      conversation (effect cfg net h xs) @ ?e @ derive (items ys) (?H \<union> \<Union> (itemKeys ` set (logItems l)))"
    by (simp add: conversation_effect items_append items_Cons derive_append handledCalls_effect itemKeys_items)
  moreover have "entries (processLog cfg net l (effect cfg net h xs)) = entries (effect cfg net h xs) @ ?e"
    by (rule entries_processLog)
  moreover have "conversation (effect cfg net h (xs @ [l])) = conversation (effect cfg net h xs) @ ?e"
    by (simp add: conversation_def effect_append entries_processLog)
  ultimately show ?thesis by blast
qed

lemma example_orders:
  "map_of [(js ''a'', js ''1''), (js ''b'', js ''2'')] = map_of [(js ''b'', js ''2''), (js ''a'', js ''1'')]"
  "stringifyObject [(js ''a'', js ''1''), (js ''b'', js ''2'')] \<noteq>
   stringifyObject [(js ''b'', js ''2''), (js ''a'', js ''1'')]"
  by (auto simp add: fun_eq_iff js_def stringifyObject_def stringifyProperty_def QuoteJSONString_def
      quoteUnit_def isLeadingSurrogate_def isTrailingSurrogate_def)

lemma example_orders_distinct:
  "distinct (map fst [(js ''a'', js ''1''), (js ''b'', js ''2'')])"
  "distinct (map fst [(js ''b'', js ''2''), (js ''a'', js ''1'')])"
  by (simp_all add: js_def)

section \<open>The claims\<close>



text \<open>
  Claim C2. The announcement of a function call is pushed inside the guard on
  \<open>handledCalls\<close>, and that set outlives the pass: the first pass over a log with one
  function call gives the announcement, the second pass over the same log, entered with
  the set the first one left, gives an empty conversation. The derivation is not
  idempotent.
\<close>

theorem second_pass_drops_announcement:
  "conversation (effect exampleConfig sendingNet {} [serverTurnLog 5 [callPart createTask]]) =
     [\<lparr>entry_role = Model, entry_text = announcement createTask, entry_time = 5\<rparr>] \<and>
   conversation (effect exampleConfig sendingNet
      (handledCalls (effect exampleConfig sendingNet {} [serverTurnLog 5 [callPart createTask]]))
      [serverTurnLog 5 [callPart createTask]]) = []"
  by (simp add: conversation_effect handledCalls_effect items_def logItems_def serverTurnLog_def
      serverItems_def userItems_def partItems_def callPart_def emitted_def itemKeys_def
      functionCalls_def logCalls_def partCalls_def keyOf_def textPasses_def)








text \<open>
  Claim C6. A part whose text is absent, empty, whitespace-only or a bare newline gives no
  text entry; any other text gives exactly one entry with the text and the date of the
  event, of role \<open>User\<close> in a user turn and of role \<open>Model\<close> (the specification's
  assistant) in a server turn, where the only other entry a part can give is the
  announcement of its function call.
\<close>

theorem blank_text_suppressed:
  "(blank (part_text p) \<longrightarrow> textEntries r date p = []) \<and>
   (\<not> blank (part_text p) \<longrightarrow>
      (\<exists>t. part_text p = Some t \<and>
           textEntries r date p = [\<lparr>entry_role = r, entry_text = t, entry_time = date\<rparr>])) \<and>
   entries (userParts date ps st) = entries st @ concat (map (textEntries User date) ps) \<and>
   entries (modelPart cfg net date p st) =
     entries st @ textEntries Model date p @
     (case part_functionCall p of None \<Rightarrow> []
      | Some fc \<Rightarrow>
          if callId fc date \<in> handledCalls st then []
          else [\<lparr>entry_role = Model, entry_text = announcement fc, entry_time = date\<rparr>])"
proof (intro conjI impI)
  assume "blank (part_text p)"
  then show "textEntries r date p = []"
    by (cases "part_text p") (simp_all add: textEntries_def)
next
  assume "\<not> blank (part_text p)"
  then show "\<exists>t. part_text p = Some t \<and>
      textEntries r date p = [\<lparr>entry_role = r, entry_text = t, entry_time = date\<rparr>]"
    by (cases "part_text p") (simp_all add: textEntries_def blank_def)
next
  show "entries (userParts date ps st) = entries st @ concat (map (textEntries User date) ps)"
    by (rule entries_userParts)
next
  show "entries (modelPart cfg net date p st) =
     entries st @ textEntries Model date p @
     (case part_functionCall p of None \<Rightarrow> []
      | Some fc \<Rightarrow>
          if callId fc date \<in> handledCalls st then []
          else [\<lparr>entry_role = Model, entry_text = announcement fc, entry_time = date\<rparr>])"
    by (rule entries_modelPart)
qed

theorem blank_text_suppressed_witness:
  "blank (part_text (textPart (js '' ''))) \<and>
   \<not> blank (part_text (textPart (js ''hello''))) \<and>
   conversation (effect exampleConfig failingNet {}
     [userTurnLog 7 [textPart (js ''hello''), textPart [0x0A], textPart (js '' ''), textPart []],
      serverTurnLog 8 [textPart [0x20, 0x09, 0xA0], textPart (js ''hi'')]]) =
     [\<lparr>entry_role = User, entry_text = js ''hello'', entry_time = 7\<rparr>,
      \<lparr>entry_role = Model, entry_text = js ''hi'', entry_time = 8\<rparr>]"
proof -
  let ?st0 = "\<lparr>entries = [], handledCalls = {}, dispatched = [], console = []\<rparr>"
  let ?ups = "[textPart (js ''hello''), textPart [0x0A], textPart (js '' ''), textPart []]"
  have b1: "blank (part_text (textPart (js '' '')))"
    by (simp add: blank_def textPart_def js_def isWhiteSpace_def)
  have b2: "\<not> blank (part_text (textPart (js ''hello'')))"
    by (simp add: blank_def textPart_def js_def isWhiteSpace_def)
  have b3: "blank (part_text (textPart [0x0A]))" "blank (part_text (textPart []))"
    "blank (part_text (textPart [0x20, 0x09, 0xA0]))" "\<not> blank (part_text (textPart (js ''hi'')))"
    by (simp_all add: blank_def textPart_def js_def isWhiteSpace_def)
  note T = blank_text_suppressed [THEN conjunct1, rule_format]
  note S = blank_text_suppressed [THEN conjunct2, THEN conjunct1, rule_format]
  have e1: "textEntries User 7 (textPart (js ''hello'')) =
      [\<lparr>entry_role = User, entry_text = js ''hello'', entry_time = 7\<rparr>]"
    using S [OF b2, of User 7] by (simp add: textPart_def)
  have e2: "textEntries Model 8 (textPart (js ''hi'')) =
      [\<lparr>entry_role = Model, entry_text = js ''hi'', entry_time = 8\<rparr>]"
    using S [OF b3(4), of Model 8] by (simp add: textPart_def)
  have "conversation (effect exampleConfig failingNet {}
     [userTurnLog 7 ?ups, serverTurnLog 8 [textPart [0x20, 0x09, 0xA0], textPart (js ''hi'')]]) =
     concat (map (textEntries User 7) ?ups) @
     textEntries Model 8 (textPart [0x20, 0x09, 0xA0]) @ textEntries Model 8 (textPart (js ''hi''))"
    by (simp add: conversation_effect items_def logItems_def userTurnLog_def serverTurnLog_def
        userItems_def serverItems_def partItems_def textPart_def textEntries_emitted)
  then show ?thesis
    using b1 b2 e1 e2 T [OF b1] T [OF b3(1)] T [OF b3(2)] T [OF b3(3)] by simp
qed

text \<open>
  Claim C7. For positions \<open>i < j\<close> of the log, the conversation is the conversation of the
  first \<open>i\<close> events, then the entries the event at \<open>i\<close> adds, then those of the events
  between, then the entries the event at \<open>j\<close> adds, then the rest: every entry of the
  event at \<open>i\<close> comes before every entry of the event at \<open>j\<close>.
\<close>

theorem conversation_order:
  assumes "i < j" and "j < length logs"
  shows "\<exists>ei mid ej rest.
     conversation (effect cfg net h logs) =
       conversation (effect cfg net h (take i logs)) @ ei @ mid @ ej @ rest \<and>
     entries (processLog cfg net (logs ! i) (effect cfg net h (take i logs))) =
       entries (effect cfg net h (take i logs)) @ ei \<and>
     conversation (effect cfg net h (take j logs)) =
       conversation (effect cfg net h (take i logs)) @ ei @ mid \<and>
     entries (processLog cfg net (logs ! j) (effect cfg net h (take j logs))) =
       entries (effect cfg net h (take j logs)) @ ej"
proof -
  from assms have i: "i < length (take j logs)" by simp
  have tj: "take j logs = take i logs @ logs ! i # drop (Suc i) (take j logs)"
    using id_take_nth_drop [OF i] assms by (simp add: min_def)
  have lg: "logs = take j logs @ logs ! j # drop (Suc j) logs"
    using assms(2) by (rule id_take_nth_drop)
  from conversation_split [of cfg net h "take i logs" "logs ! i" "drop (Suc i) (take j logs)"] tj
  obtain ei mid where
    a: "conversation (effect cfg net h (take j logs)) =
          conversation (effect cfg net h (take i logs)) @ ei @ mid" and
    b: "entries (processLog cfg net (logs ! i) (effect cfg net h (take i logs))) =
          entries (effect cfg net h (take i logs)) @ ei"
    by auto
  from conversation_split [of cfg net h "take j logs" "logs ! j" "drop (Suc j) logs"] lg
  obtain ej rest where
    c: "conversation (effect cfg net h logs) = conversation (effect cfg net h (take j logs)) @ ej @ rest" and
    d: "entries (processLog cfg net (logs ! j) (effect cfg net h (take j logs))) =
          entries (effect cfg net h (take j logs)) @ ej"
    by auto
  from a c have "conversation (effect cfg net h logs) =
       conversation (effect cfg net h (take i logs)) @ ei @ mid @ ej @ rest" by simp
  with a b d show ?thesis by blast
qed

theorem conversation_order_witness:
  "(0::nat) < 2 \<and>
   2 < length [userTurnLog 1 [textPart (js ''hello'')], serverTurnLog 2 [callPart createTask],
               serverTurnLog 3 [textPart (js ''hi'')]] \<and>
   (\<exists>ei mid ej rest.
     conversation (effect exampleConfig failingNet {}
       [userTurnLog 1 [textPart (js ''hello'')], serverTurnLog 2 [callPart createTask],
        serverTurnLog 3 [textPart (js ''hi'')]]) = ei @ mid @ ej @ rest \<and>
     entries (processLog exampleConfig failingNet (userTurnLog 1 [textPart (js ''hello'')])
       (effect exampleConfig failingNet {} [])) = ei \<and>
     entries (processLog exampleConfig failingNet (serverTurnLog 3 [textPart (js ''hi'')])
       (effect exampleConfig failingNet {}
          [userTurnLog 1 [textPart (js ''hello'')], serverTurnLog 2 [callPart createTask]])) =
       ei @ mid @ ej)"
proof -
  let ?logs = "[userTurnLog 1 [textPart (js ''hello'')], serverTurnLog 2 [callPart createTask],
        serverTurnLog 3 [textPart (js ''hi'')]]"
  have e: "entries (effect exampleConfig failingNet {} []) = []"
    "conversation (effect exampleConfig failingNet {} []) = []"
    by (simp_all add: effect_def conversation_def)
  from conversation_order [of 0 2 ?logs exampleConfig failingNet "{}"]
  obtain ei mid ej rest where
    "conversation (effect exampleConfig failingNet {} ?logs) =
       conversation (effect exampleConfig failingNet {} (take 0 ?logs)) @ ei @ mid @ ej @ rest"
    "entries (processLog exampleConfig failingNet (?logs ! 0) (effect exampleConfig failingNet {} (take 0 ?logs))) =
       entries (effect exampleConfig failingNet {} (take 0 ?logs)) @ ei"
    "conversation (effect exampleConfig failingNet {} (take 2 ?logs)) =
       conversation (effect exampleConfig failingNet {} (take 0 ?logs)) @ ei @ mid"
    "entries (processLog exampleConfig failingNet (?logs ! 2) (effect exampleConfig failingNet {} (take 2 ?logs))) =
       entries (effect exampleConfig failingNet {} (take 2 ?logs)) @ ej"
    by auto
  then have "conversation (effect exampleConfig failingNet {} ?logs) = ei @ mid @ ej @ rest \<and>
     entries (processLog exampleConfig failingNet (userTurnLog 1 [textPart (js ''hello'')])
       (effect exampleConfig failingNet {} [])) = ei \<and>
     entries (processLog exampleConfig failingNet (serverTurnLog 3 [textPart (js ''hi'')])
       (effect exampleConfig failingNet {}
          [userTurnLog 1 [textPart (js ''hello'')], serverTurnLog 2 [callPart createTask]])) =
       ei @ mid @ ej"
    by (simp add: e conversation_def numeral_2_eq_2)
  then show ?thesis by auto
qed

text \<open>
  Claim C8. A pass removes no key from \<open>handledCalls\<close>, starts no relay call under a key
  that was handled when it began, and starts at most one under any key; every key it
  dispatched is handled afterwards, so a later pass starts no relay call under it, whatever
  the relay did with the first call.
\<close>

theorem handled_never_redispatched:
  "h \<subseteq> handledCalls (effect cfg net h logs) \<and>
   (\<forall>k\<in>h. invocations k (effect cfg net h logs) = 0) \<and>
   distinct (map fst (dispatched (effect cfg net h logs))) \<and>
   (\<forall>k \<in> fst ` set (dispatched (effect cfg net h logs)).
      k \<in> handledCalls (effect cfg net h logs) \<and>
      invocations k (effect cfg net' (handledCalls (effect cfg net h logs)) logs') = 0)"
proof (intro conjI ballI)
  show "h \<subseteq> handledCalls (effect cfg net h logs)"
    by (simp add: handledCalls_effect)
  show "invocations k (effect cfg net h logs) = 0" if "k \<in> h" for k
    using that by (simp add: invocations_effect)
  show "distinct (map fst (dispatched (effect cfg net h logs)))"
    by (simp add: dispatched_effect distinct_startedAll)
  fix k
  assume "k \<in> fst ` set (dispatched (effect cfg net h logs))"
  then have "k \<in> keyOf ` set (functionCalls logs)"
    by (simp add: dispatched_effect keys_startedAll itemKeys_items)
  then show "k \<in> handledCalls (effect cfg net h logs)"
    by (simp add: handledCalls_effect)
  then show "invocations k (effect cfg net' (handledCalls (effect cfg net h logs)) logs') = 0"
    by (simp add: invocations_effect)
qed

theorem handled_never_redispatched_witness:
  "callId createTask 5 \<in> handledCalls (effect exampleConfig failingNet {} [serverTurnLog 5 [callPart createTask]]) \<and>
   invocations (callId createTask 5) (effect exampleConfig failingNet {} [serverTurnLog 5 [callPart createTask]]) = 1 \<and>
   invocations (callId createTask 5)
     (effect exampleConfig sendingNet
        (handledCalls (effect exampleConfig failingNet {} [serverTurnLog 5 [callPart createTask]]))
        [serverTurnLog 5 [callPart createTask], serverTurnLog 5 [callPart createTask]]) = 0"
proof -
  let ?st = "effect exampleConfig failingNet {} [serverTurnLog 5 [callPart createTask]]"
  have d: "dispatched ?st = [(callId createTask 5, relayCall createTask)]"
    by (simp add: dispatched_effect items_def logItems_def serverTurnLog_def serverItems_def
        userItems_def partItems_def callPart_def started_def itemKeys_def)
  then have "callId createTask 5 \<in> fst ` set (dispatched ?st)" by simp
  with handled_never_redispatched [of "{}" exampleConfig failingNet
      "[serverTurnLog 5 [callPart createTask]]" sendingNet
      "[serverTurnLog 5 [callPart createTask], serverTurnLog 5 [callPart createTask]]"]
  show ?thesis by (simp add: invocations_def d)
qed

text \<open>
  Claim C9. The \<open>callId\<close> is the name, the JSON text of the arguments and the decimal
  milliseconds of the event's date, joined by \<open>-\<close>. The same call at two different dates
  has two different keys and is dispatched under each; two argument objects with
  different JSON texts give different keys, each dispatched, and there are such objects
  that are equal as maps and differ only in the order of their properties.
\<close>

theorem callId_identity:
  "callId fc date =
     fc_name fc @ [0x2D] @
     (case fc_args fc of None \<Rightarrow> js ''undefined'' | Some a \<Rightarrow> stringifyObject a) @
     [0x2D] @ ToString date \<and>
   (date \<noteq> date' \<and> (fc, date) \<in> set (functionCalls logs) \<and> (fc, date') \<in> set (functionCalls logs) \<and>
    callId fc date \<notin> h \<and> callId fc date' \<notin> h \<longrightarrow>
      callId fc date \<noteq> callId fc date' \<and>
      invocations (callId fc date) (effect cfg net h logs) = 1 \<and>
      invocations (callId fc date') (effect cfg net h logs) = 1) \<and>
   (stringifyObject a \<noteq> stringifyObject a' \<and>
    (\<lparr>fc_name = n, fc_args = Some a\<rparr>, date) \<in> set (functionCalls logs) \<and>
    (\<lparr>fc_name = n, fc_args = Some a'\<rparr>, date) \<in> set (functionCalls logs) \<and>
    callId \<lparr>fc_name = n, fc_args = Some a\<rparr> date \<notin> h \<and>
    callId \<lparr>fc_name = n, fc_args = Some a'\<rparr> date \<notin> h \<longrightarrow>
      callId \<lparr>fc_name = n, fc_args = Some a\<rparr> date \<noteq> callId \<lparr>fc_name = n, fc_args = Some a'\<rparr> date \<and>
      invocations (callId \<lparr>fc_name = n, fc_args = Some a\<rparr> date) (effect cfg net h logs) = 1 \<and>
      invocations (callId \<lparr>fc_name = n, fc_args = Some a'\<rparr> date) (effect cfg net h logs) = 1) \<and>
   (\<exists>b b'. map_of b = map_of b' \<and> distinct (map fst b) \<and> distinct (map fst b') \<and>
           stringifyObject b \<noteq> stringifyObject b')"
proof -
  have once: "invocations (callId f d) (effect cfg net h logs) = 1"
    if "(f, d) \<in> set (functionCalls logs)" and "callId f d \<notin> h" for f d
  proof -
    from that(1) have "keyOf (f, d) \<in> keyOf ` set (functionCalls logs)" by blast
    then have "callId f d \<in> keyOf ` set (functionCalls logs)" by (simp add: keyOf_def)
    with that(2) show ?thesis by (simp add: invocations_effect)
  qed
  have 1: "callId fc date =
     fc_name fc @ [0x2D] @
     (case fc_args fc of None \<Rightarrow> js ''undefined'' | Some a \<Rightarrow> stringifyObject a) @
     [0x2D] @ ToString date"
    by (simp add: callId_def stringifyInTemplate_def js_def)
  have 2: "date \<noteq> date' \<Longrightarrow> callId fc date \<noteq> callId fc date'"
    using callId_date_inj by blast
  have 3: "stringifyObject a \<noteq> stringifyObject a' \<Longrightarrow>
      callId \<lparr>fc_name = n, fc_args = Some a\<rparr> date \<noteq> callId \<lparr>fc_name = n, fc_args = Some a'\<rparr> date"
    by (simp add: callId_args_inj)
  have 4: "\<exists>b b'. map_of b = map_of b' \<and> distinct (map fst b) \<and> distinct (map fst b') \<and>
           stringifyObject b \<noteq> stringifyObject b'"
    using example_orders example_orders_distinct by blast
  from 1 2 3 4 once show ?thesis by blast
qed

theorem callId_identity_witness:
  "callId createTask 1 \<noteq> callId createTask 2 \<and>
   invocations (callId createTask 1)
     (effect exampleConfig failingNet {}
        [serverTurnLog 1 [callPart createTask], serverTurnLog 2 [callPart createTask]]) = 1 \<and>
   invocations (callId createTask 2)
     (effect exampleConfig failingNet {}
        [serverTurnLog 1 [callPart createTask], serverTurnLog 2 [callPart createTask]]) = 1 \<and>
   invocations (callId \<lparr>fc_name = js ''f'', fc_args = Some [(js ''a'', js ''1''), (js ''b'', js ''2'')]\<rparr> 3)
     (effect exampleConfig failingNet {}
        [serverTurnLog 3 [callPart \<lparr>fc_name = js ''f'', fc_args = Some [(js ''a'', js ''1''), (js ''b'', js ''2'')]\<rparr>],
         serverTurnLog 3 [callPart \<lparr>fc_name = js ''f'', fc_args = Some [(js ''b'', js ''2''), (js ''a'', js ''1'')]\<rparr>]]) = 1 \<and>
   invocations (callId \<lparr>fc_name = js ''f'', fc_args = Some [(js ''b'', js ''2''), (js ''a'', js ''1'')]\<rparr> 3)
     (effect exampleConfig failingNet {}
        [serverTurnLog 3 [callPart \<lparr>fc_name = js ''f'', fc_args = Some [(js ''a'', js ''1''), (js ''b'', js ''2'')]\<rparr>],
         serverTurnLog 3 [callPart \<lparr>fc_name = js ''f'', fc_args = Some [(js ''b'', js ''2''), (js ''a'', js ''1'')]\<rparr>]]) = 1"
proof -
  let ?logs = "[serverTurnLog 1 [callPart createTask], serverTurnLog 2 [callPart createTask]]"
  let ?a = "[(js ''a'', js ''1''), (js ''b'', js ''2'')]"
  let ?b = "[(js ''b'', js ''2''), (js ''a'', js ''1'')]"
  let ?logs' = "[serverTurnLog 3 [callPart \<lparr>fc_name = js ''f'', fc_args = Some ?a\<rparr>],
         serverTurnLog 3 [callPart \<lparr>fc_name = js ''f'', fc_args = Some ?b\<rparr>]]"
  have p: "(1::int) \<noteq> 2 \<and> (createTask, 1) \<in> set (functionCalls ?logs) \<and>
      (createTask, 2) \<in> set (functionCalls ?logs) \<and>
      callId createTask 1 \<notin> {} \<and> callId createTask 2 \<notin> {}"
    by (simp add: fixtures_calls)
  have q: "stringifyObject ?a \<noteq> stringifyObject ?b \<and>
      (\<lparr>fc_name = js ''f'', fc_args = Some ?a\<rparr>, 3) \<in> set (functionCalls ?logs') \<and>
      (\<lparr>fc_name = js ''f'', fc_args = Some ?b\<rparr>, 3) \<in> set (functionCalls ?logs') \<and>
      callId \<lparr>fc_name = js ''f'', fc_args = Some ?a\<rparr> 3 \<notin> {} \<and>
      callId \<lparr>fc_name = js ''f'', fc_args = Some ?b\<rparr> 3 \<notin> {}"
    using example_orders(2) by (simp add: fixtures_calls)
  note P = callId_identity [where fc = createTask and date = 1 and date' = 2 and logs = ?logs
      and h = "{}" and cfg = exampleConfig and net = failingNet,
      THEN conjunct2, THEN conjunct1, rule_format, OF p]
  note Q = callId_identity [where logs = ?logs' and h = "{}" and a = ?a and a' = ?b
      and n = "js ''f''" and date = 3 and cfg = exampleConfig and net = failingNet,
      THEN conjunct2, THEN conjunct2, THEN conjunct1, rule_format, OF q]
  from P Q show ?thesis by blast
qed

text \<open>
  Claim C10. A part of a server turn with a text that is not blank and a function call
  that is not yet handled adds two entries, the text and then the announcement, both of
  role \<open>Model\<close> (the specification's assistant) and with the date of the event.
\<close>

theorem text_then_announcement:
  "part_text p = Some t \<Longrightarrow> \<not> blank (Some t) \<Longrightarrow> part_functionCall p = Some fc \<Longrightarrow>
   callId fc date \<notin> handledCalls st \<Longrightarrow>
   entries (modelPart cfg net date p st) =
     entries st @
     [\<lparr>entry_role = Model, entry_text = t, entry_time = date\<rparr>,
      \<lparr>entry_role = Model, entry_text = announcement fc, entry_time = date\<rparr>]"
  by (simp add: entries_modelPart textEntries_def)

theorem text_then_announcement_witness:
  "entries (modelPart exampleConfig failingNet 9
      \<lparr>part_text = Some (js ''On it''), part_functionCall = Some createTask\<rparr>
      \<lparr>entries = [], handledCalls = {}, dispatched = [], console = []\<rparr>) =
     [\<lparr>entry_role = Model, entry_text = js ''On it'', entry_time = 9\<rparr>,
      \<lparr>entry_role = Model, entry_text = announcement createTask, entry_time = 9\<rparr>]"
proof -
  have "\<not> blank (Some (js ''On it''))"
    by (simp add: blank_def js_def isWhiteSpace_def)
  then show ?thesis
    using text_then_announcement [of "\<lparr>part_text = Some (js ''On it''), part_functionCall = Some createTask\<rparr>"
        "js ''On it''" createTask 9 "\<lparr>entries = [], handledCalls = {}, dispatched = [], console = []\<rparr>"
        exampleConfig failingNet]
    by simp
qed

end
